theory Spec2Isabelle
  imports Main
begin

section \<open>Data model of the matchmaking server (src/server.js)\<close>

text \<open>
  A queue entry is the object \<^verbatim>\<open>{ id, username, country }\<close> pushed onto
  \<^verbatim>\<open>waitingUsers\<close>. Socket ids, user names and countries are JavaScript strings;
  they are only ever compared with \<^verbatim>\<open>===\<close> / \<^verbatim>\<open>!==\<close> on the server, which on
  strings is plain equality. The field \<^verbatim>\<open>id\<close> is written \<open>id'\<close> because \<open>id\<close> is
  the identity function of HOL.
\<close>

record user =
  id' :: string
  username :: string
  country :: string

text \<open>
  The payload \<^verbatim>\<open>userData\<close> of a \<^verbatim>\<open>start-matching\<close> event, as the client sends it:
  an object with the two string fields the handler destructures.
\<close>

record userData =
  ud_username :: string
  ud_country :: string

section \<open>Array primitives of the language used by the handlers\<close>

text \<open>
  \<^verbatim>\<open>Array.prototype.findIndex\<close>: the index of the first element that satisfies the
  predicate, scanning from index 0, or \<open>-1\<close> when there is none.
\<close>

fun findIndex :: "('a \<Rightarrow> bool) \<Rightarrow> 'a list \<Rightarrow> int" where
  "findIndex P [] = - 1"
| "findIndex P (x # xs) =
     (if P x then 0
      else (let i = findIndex P xs in if i = - 1 then - 1 else i + 1))"

text \<open>
  \<^verbatim>\<open>Array.prototype.splice(start, deleteCount)\<close>: a negative \<open>start\<close> counts from
  the end, a \<open>start\<close> beyond the end is clamped to the length. The result is the pair of
  the array of removed elements (the return value) and the array as it is left behind
  (the mutation). The name carries a prime because \<open>splice\<close> is a list function of HOL.
\<close>

definition splice' :: "int \<Rightarrow> nat \<Rightarrow> 'a list \<Rightarrow> 'a list \<times> 'a list" where
  "splice' start deleteCount xs =
     (let len = int (length xs);
          s = nat (if start < 0 then max (len + start) 0 else min start len)
      in (take deleteCount (drop s xs), take s xs @ drop (s + deleteCount) xs))"

text \<open>
  Reading index 0 of an array, \<^verbatim>\<open>a[0]\<close>: \<^verbatim>\<open>undefined\<close> (here \<open>None\<close>) on the
  empty array.
\<close>

definition index0 :: "'a list \<Rightarrow> 'a option" where
  "index0 xs = (case xs of [] \<Rightarrow> None | x # _ \<Rightarrow> Some x)"

section \<open>The matching policy (server.js, lines 35 to 55)\<close>

text \<open>
  The body of the \<^verbatim>\<open>start-matching\<close> handler between the self-filter and the
  liveness check: \<^verbatim>\<open>partnerUser\<close> starts as \<^verbatim>\<open>null\<close>; the worldwide search runs
  first, the local search only when the worldwide one found nothing. The result is
  \<^verbatim>\<open>partnerUser\<close> together with \<^verbatim>\<open>waitingUsers\<close> as the splice leaves it.
\<close>

definition find_and_remove_partner :: "string \<Rightarrow> user list \<Rightarrow> user option \<times> user list" where
  "find_and_remove_partner c waitingUsers =
     (let worldwidePartnerIndex = findIndex (\<lambda>u. country u \<noteq> c) waitingUsers in
      if worldwidePartnerIndex \<noteq> - 1 then
        (let (removed, waitingUsers') = splice' worldwidePartnerIndex 1 waitingUsers
         in (index0 removed, waitingUsers'))
      else
        (let localPartnerIndex = findIndex (\<lambda>u. country u = c) waitingUsers in
         if localPartnerIndex \<noteq> - 1 then
           (let (removed, waitingUsers') = splice' localPartnerIndex 1 waitingUsers
            in (index0 removed, waitingUsers'))
         else (None, waitingUsers)))"

section \<open>Server state, outbound events and handlers (src/server.js)\<close>

text \<open>
  The mutable state the handlers read and write: the module-level array
  \<^verbatim>\<open>waitingUsers\<close>, and the table \<^verbatim>\<open>io.sockets.sockets\<close> of the transport library,
  of which only the set of keys (the ids of the connected sockets) is observed, through
  \<^verbatim>\<open>io.sockets.sockets.get(id)\<close> and \<^verbatim>\<open>io.to(id)\<close>. The server keeps nothing else.
\<close>

record server_state =
  waitingUsers :: "user list"
  sockets :: "string set"

text \<open>
  What the server emits. \<open>MatchFound partnerId partnerUsername partnerCountry\<close> is
  \<^verbatim>\<open>match-found\<close>, \<open>WaitingInQueue\<close> is \<^verbatim>\<open>waiting-in-queue\<close>,
  \<open>Signal sender type payload\<close> is the relayed \<^verbatim>\<open>signal\<close> and \<open>PartnerDropped\<close> is
  \<^verbatim>\<open>partner-dropped\<close>. An emission pairs the id of the receiving socket with the event.
\<close>

datatype outbound =
  MatchFound string string string
| WaitingInQueue
| Signal string string string
| PartnerDropped

type_synonym emission = "string \<times> outbound"

text \<open>The payload \<^verbatim>\<open>data\<close> of an inbound \<^verbatim>\<open>signal\<close> event; the payload is opaque.\<close>

record signalData =
  target :: string
  type' :: string
  payload :: string

text \<open>
  \<^verbatim>\<open>io.to(room).emit(ev)\<close>: every socket is in the room named by its own id and the
  code joins no other room, so the event reaches the socket with that id when it is
  connected and nobody otherwise.
\<close>

definition io_to_emit :: "server_state \<Rightarrow> string \<Rightarrow> outbound \<Rightarrow> emission list" where
  "io_to_emit s room ev = (if room \<in> sockets s then [(room, ev)] else [])"

text \<open>
  The handler of \<^verbatim>\<open>start-matching\<close> on the socket \<open>sid\<close> (lines 27 to 88).
  \<^verbatim>\<open>socket.emit\<close> and \<^verbatim>\<open>partnerSocket.emit\<close> address one socket each.
\<close>

definition start_matching ::
  "string \<Rightarrow> userData \<Rightarrow> server_state \<Rightarrow> server_state \<times> emission list" where
  "start_matching sid ud s =
     (let un = ud_username ud; c = ud_country ud;
          waitingUsers0 = filter (\<lambda>u. id' u \<noteq> sid) (waitingUsers s);
          (partnerUser, waitingUsers1) = find_and_remove_partner c waitingUsers0
      in case partnerUser of
           Some p \<Rightarrow>
             (if id' p \<in> sockets s then
                (s\<lparr>waitingUsers := waitingUsers1\<rparr>,
                 [(sid, MatchFound (id' p) (username p) (country p)),
                  (id' p, MatchFound sid un c)])
              else
                (s\<lparr>waitingUsers :=
                     waitingUsers1 @ [\<lparr>id' = sid, username = un, country = c\<rparr>]\<rparr>,
                 [(sid, WaitingInQueue)]))
         | None \<Rightarrow>
             (s\<lparr>waitingUsers :=
                  waitingUsers1 @ [\<lparr>id' = sid, username = un, country = c\<rparr>]\<rparr>,
              [(sid, WaitingInQueue)]))"

text \<open>The handler of \<^verbatim>\<open>signal\<close> (lines 91 to 98).\<close>

definition signal :: "string \<Rightarrow> signalData \<Rightarrow> server_state \<Rightarrow> server_state \<times> emission list" where
  "signal sid d s = (s, io_to_emit s (target d) (Signal sid (type' d) (payload d)))"

text \<open>
  The handler of \<^verbatim>\<open>user-hangup\<close> (lines 101 to 109). \<^verbatim>\<open>partnerId\<close> may be absent
  or \<^verbatim>\<open>null\<close> (\<open>None\<close>); \<^verbatim>\<open>if (partnerId)\<close> is also false on the empty string.
\<close>

definition user_hangup ::
  "string \<Rightarrow> string option \<Rightarrow> server_state \<Rightarrow> server_state \<times> emission list" where
  "user_hangup sid partnerId s =
     (s\<lparr>waitingUsers := filter (\<lambda>u. id' u \<noteq> sid) (waitingUsers s)\<rparr>,
      (case partnerId of
         None \<Rightarrow> []
       | Some p \<Rightarrow> if p \<noteq> [] then io_to_emit s p PartnerDropped else []))"

text \<open>The handler of \<^verbatim>\<open>disconnect\<close> (lines 113 to 122).\<close>

definition disconnect :: "string \<Rightarrow> server_state \<Rightarrow> server_state \<times> emission list" where
  "disconnect sid s =
     (s\<lparr>waitingUsers := filter (\<lambda>u. id' u \<noteq> sid) (waitingUsers s)\<rparr>, [])"

text \<open>
  The events the server receives, each with the id of the socket it arrives on. The
  transport library adds a socket to its table before \<^verbatim>\<open>connection\<close> is handled and
  has removed it when \<^verbatim>\<open>disconnect\<close> is handled.
\<close>

datatype event =
  Connection string
| StartMatching string userData
| SignalEv string signalData
| UserHangup string "string option"
| Disconnect string

fun step :: "event \<Rightarrow> server_state \<Rightarrow> server_state \<times> emission list" where
  "step (Connection sid) s = (s\<lparr>sockets := insert sid (sockets s)\<rparr>, [])"
| "step (StartMatching sid ud) s = start_matching sid ud s"
| "step (SignalEv sid d) s = signal sid d s"
| "step (UserHangup sid partnerId) s = user_hangup sid partnerId s"
| "step (Disconnect sid) s = disconnect sid (s\<lparr>sockets := sockets s - {sid}\<rparr>)"

fun run :: "event list \<Rightarrow> server_state \<Rightarrow> server_state \<times> emission list" where
  "run [] s = (s, [])"
| "run (e # es) s =
     (let (s1, out1) = step e s; (s2, out2) = run es s1 in (s2, out1 @ out2))"

definition initial :: server_state where
  "initial = \<lparr>waitingUsers = [], sockets = {}\<rparr>"

section \<open>The client (src/public/client.js)\<close>

text \<open>
  The global state of the page script, without the DOM: the socket's id, whether a
  local media stream is held, the peer connection (or \<^verbatim>\<open>null\<close>), the partner's id
  (or \<^verbatim>\<open>null\<close>) and the display attributes \<^verbatim>\<open>localUserData\<close>. The other two
  revisions of the script under src/ differ from this one in DOM updates only.
\<close>

datatype RTCPeerConnection = RTCPeerConnection

record client_state =
  socket_id :: string
  localStream :: bool
  peerConnection :: "RTCPeerConnection option"
  partnerId :: "string option"
  localUserData :: userData

text \<open>
  What the handlers modelled here do to the outside: the \<^verbatim>\<open>start-matching\<close> and
  \<^verbatim>\<open>user-hangup\<close> events they emit to the server, and the call of
  \<^verbatim>\<open>createOffer()\<close> that starts the handshake.
\<close>

datatype client_effect =
  EmitStartMatching userData
| EmitUserHangup string
| CreateOffer

text \<open>
  \<^verbatim>\<open>a < b\<close> on two strings: the shorter one is smaller when it is a prefix of the other,
  otherwise the first differing code units decide. Socket ids are ASCII, so a \<open>char\<close>
  is a code unit.
\<close>

fun js_string_lt :: "string \<Rightarrow> string \<Rightarrow> bool" where
  "js_string_lt [] [] = False"
| "js_string_lt [] (y # ys) = True"
| "js_string_lt (x # xs) [] = False"
| "js_string_lt (x # xs) (y # ys) =
     (if x = y then js_string_lt xs ys else (of_char x :: nat) < of_char y)"

definition clearConnectionState :: "client_state \<Rightarrow> client_state" where
  "clearConnectionState c = c\<lparr>peerConnection := None, partnerId := None\<rparr>"

definition handleHangUp :: "bool \<Rightarrow> client_state \<Rightarrow> client_state \<times> client_effect list" where
  "handleHangUp isAutomatic c =
     (let out = (case partnerId c of
                   None \<Rightarrow> []
                 | Some p \<Rightarrow> if p \<noteq> [] then [EmitUserHangup p] else []);
          c1 = clearConnectionState c;
          c2 = (if \<not> isAutomatic \<and> localStream c1 then c1\<lparr>localStream := False\<rparr> else c1)
      in (c2, out))"

definition requeueForMatch :: "client_state \<Rightarrow> client_state \<times> client_effect list" where
  "requeueForMatch c =
     (if ud_username (localUserData c) \<noteq> [] \<and> ud_country (localUserData c) \<noteq> []
      then (c, [EmitStartMatching (localUserData c)])
      else handleHangUp False c)"

text \<open>The handler of \<^verbatim>\<open>partner-dropped\<close> (lines 318 to 326).\<close>

definition partner_dropped :: "client_state \<Rightarrow> client_state \<times> client_effect list" where
  "partner_dropped c = requeueForMatch (clearConnectionState c)"

definition createPeerConnection ::
  "bool \<Rightarrow> client_state \<Rightarrow> client_state \<times> client_effect list" where
  "createPeerConnection isInitiator c =
     (c\<lparr>peerConnection := Some RTCPeerConnection\<rparr>,
      if isInitiator then [CreateOffer] else [])"

text \<open>
  The handler of \<^verbatim>\<open>match-found\<close> (lines 261 to 277); \<open>isInitiator\<close> is the
  comparison \<^verbatim>\<open>socket.id < partnerId\<close> it computes.
\<close>

definition isInitiator :: "string \<Rightarrow> string \<Rightarrow> bool" where
  "isInitiator socket_id' partnerId' = js_string_lt socket_id' partnerId'"

definition match_found :: "outbound \<Rightarrow> client_state \<Rightarrow> client_state \<times> client_effect list" where
  "match_found ev c =
     (case ev of
        MatchFound pid partnerUsername partnerCountry \<Rightarrow>
          (let c1 = c\<lparr>partnerId := Some pid\<rparr>
           in createPeerConnection (isInitiator (socket_id c1) pid) c1)
      | _ \<Rightarrow> (c, []))"

section \<open>Example values\<close>

text \<open>
  Queue entries, join requests, a signal and two client states at which the theorems below
  are instantiated.
\<close>

definition ann :: user where "ann = \<lparr>id' = ''a'', username = ''Ann'', country = ''US''\<rparr>"
definition bob :: user where "bob = \<lparr>id' = ''b'', username = ''Bob'', country = ''FR''\<rparr>"
definition cy :: user where "cy = \<lparr>id' = ''c'', username = ''Cy'', country = ''US''\<rparr>"
definition dee :: userData where "dee = \<lparr>ud_username = ''Dee'', ud_country = ''US''\<rparr>"

definition annData :: userData where "annData = \<lparr>ud_username = ''Ann'', ud_country = ''US''\<rparr>"
definition bobData :: userData where "bobData = \<lparr>ud_username = ''Bob'', ud_country = ''FR''\<rparr>"
definition offer :: signalData where "offer = \<lparr>target = ''b'', type' = ''sdp-offer'', payload = ''v=0''\<rparr>"
definition annClient :: client_state where
  "annClient = \<lparr>socket_id = ''a'', localStream = True, peerConnection = Some RTCPeerConnection,
     partnerId = Some ''b'', localUserData = annData\<rparr>"
definition bobClient :: client_state where
  "bobClient = \<lparr>socket_id = ''b'', localStream = True, peerConnection = None,
     partnerId = None, localUserData = bobData\<rparr>"

section \<open>Facts about the array primitives\<close>

lemma findIndex_ge: "- 1 \<le> findIndex P xs"
  by (induction xs) (auto simp: Let_def)

lemma findIndex_none: "findIndex P xs = - 1 \<longleftrightarrow> (\<forall>x \<in> set xs. \<not> P x)"
proof (induction xs)
  case Nil
  show ?case by simp
next
  case (Cons x xs)
  have "findIndex P xs + 1 \<noteq> - 1"
    using findIndex_ge [of P xs] by arith
  with Cons show ?case by (auto simp: Let_def)
qed

lemma findIndex_first:
  assumes "\<forall>x \<in> set pre. \<not> P x" and "P p"
  shows "findIndex P (pre @ p # post) = int (length pre)"
  using assms
proof (induction pre)
  case Nil
  then show ?case by simp
next
  case (Cons x pre)
  then show ?case by (simp add: Let_def)
qed

lemma splice_one_at:
  "splice' (int (length pre)) (Suc 0) (pre @ p # post) = ([p], pre @ post)"
  by (simp add: splice'_def Let_def)

lemma split_first:
  assumes "\<exists>x \<in> set xs. P x"
  shows "\<exists>pre p post. xs = pre @ p # post \<and> P p \<and> (\<forall>x \<in> set pre. \<not> P x)"
  using assms split_list_first_prop [of xs P] by blast

lemma policy_at_first:
  assumes "\<forall>x \<in> set pre. country x = c" and "country p \<noteq> c"
  shows "find_and_remove_partner c (pre @ p # post) = (Some p, pre @ post)"
proof -
  have i: "findIndex (\<lambda>u. country u \<noteq> c) (pre @ p # post) = int (length pre)"
    using assms by (intro findIndex_first) auto
  show ?thesis
    unfolding find_and_remove_partner_def i Let_def
    by (simp add: splice_one_at index0_def)
qed

section \<open>Facts about the policy and the handlers\<close>

lemma policy_all_same:
  assumes "\<forall>u \<in> set Q. country u = r"
  shows "find_and_remove_partner r Q = (case Q of [] \<Rightarrow> (None, []) | p # rest \<Rightarrow> (Some p, rest))"
proof (cases Q)
  case Nil
  then show ?thesis by (simp add: find_and_remove_partner_def)
next
  case (Cons p rest)
  have w: "findIndex (\<lambda>u. country u \<noteq> r) Q = - 1"
    using assms by (simp add: findIndex_none)
  have l: "findIndex (\<lambda>u. country u = r) Q = 0"
    using assms Cons by simp
  show ?thesis
    unfolding find_and_remove_partner_def w l Let_def
    using Cons by (simp add: splice'_def index0_def)
qed

lemma policy_nonempty:
  assumes "Q \<noteq> []"
  shows "\<exists>pre p post. Q = pre @ p # post \<and> find_and_remove_partner c Q = (Some p, pre @ post)"
proof (cases "\<exists>u \<in> set Q. country u \<noteq> c")
  case True
  from split_first [OF True] obtain pre p post
    where "Q = pre @ p # post" "country p \<noteq> c" "\<forall>x \<in> set pre. country x = c"
    by auto
  then show ?thesis using policy_at_first by blast
next
  case False
  then have same: "\<forall>u \<in> set Q. country u = c" by simp
  from assms obtain p rest where q: "Q = p # rest" by (cases Q) auto
  from policy_all_same [OF same] q
  have "Q = [] @ p # rest \<and> find_and_remove_partner c Q = (Some p, [] @ rest)" by simp
  then show ?thesis by blast
qed

lemma policy_empty: "find_and_remove_partner c [] = (None, [])"
  by (simp add: find_and_remove_partner_def)

lemma policy_Some_D:
  assumes "find_and_remove_partner c Q = (Some p, rest)"
  shows "\<exists>pre post. Q = pre @ p # post \<and> rest = pre @ post"
proof (cases "Q = []")
  case True
  with assms show ?thesis by (simp add: policy_empty)
next
  case False
  from policy_nonempty [OF False, of c] assms show ?thesis by auto
qed

lemma start_matching_none:
  assumes "filter (\<lambda>u. id' u \<noteq> sid) (waitingUsers s) = []"
  shows "start_matching sid ud s =
           (s\<lparr>waitingUsers := [\<lparr>id' = sid, username = ud_username ud, country = ud_country ud\<rparr>]\<rparr>,
            [(sid, WaitingInQueue)])"
  using assms by (simp add: start_matching_def Let_def policy_empty)

lemma start_matching_some:
  assumes "find_and_remove_partner (ud_country ud) (filter (\<lambda>u. id' u \<noteq> sid) (waitingUsers s)) = (Some p, rest)"
  shows "start_matching sid ud s =
           (if id' p \<in> sockets s then
              (s\<lparr>waitingUsers := rest\<rparr>,
               [(sid, MatchFound (id' p) (username p) (country p)),
                (id' p, MatchFound sid (ud_username ud) (ud_country ud))])
            else
              (s\<lparr>waitingUsers := rest @ [\<lparr>id' = sid, username = ud_username ud, country = ud_country ud\<rparr>]\<rparr>,
               [(sid, WaitingInQueue)]))"
  using assms by (simp add: start_matching_def Let_def)

text \<open>Every run of the handler is one of three outcomes.\<close>

lemma start_matching_cases:
  obtains
    (waiting) "filter (\<lambda>u. id' u \<noteq> sid) (waitingUsers s) = []"
      "start_matching sid ud s =
         (s\<lparr>waitingUsers := [\<lparr>id' = sid, username = ud_username ud, country = ud_country ud\<rparr>]\<rparr>,
          [(sid, WaitingInQueue)])"
  | (matched) pre p post where
      "filter (\<lambda>u. id' u \<noteq> sid) (waitingUsers s) = pre @ p # post"
      "id' p \<in> sockets s"
      "start_matching sid ud s =
         (s\<lparr>waitingUsers := pre @ post\<rparr>,
          [(sid, MatchFound (id' p) (username p) (country p)),
           (id' p, MatchFound sid (ud_username ud) (ud_country ud))])"
  | (stale) pre p post where
      "filter (\<lambda>u. id' u \<noteq> sid) (waitingUsers s) = pre @ p # post"
      "id' p \<notin> sockets s"
      "start_matching sid ud s =
         (s\<lparr>waitingUsers := pre @ post @ [\<lparr>id' = sid, username = ud_username ud, country = ud_country ud\<rparr>]\<rparr>,
          [(sid, WaitingInQueue)])"
proof (cases "filter (\<lambda>u. id' u \<noteq> sid) (waitingUsers s) = []")
  case True
  from waiting [OF True start_matching_none [OF True]] show ?thesis .
next
  case False
  from policy_nonempty [OF False, of "ud_country ud"] obtain pre p post
    where q: "filter (\<lambda>u. id' u \<noteq> sid) (waitingUsers s) = pre @ p # post"
      and f: "find_and_remove_partner (ud_country ud) (filter (\<lambda>u. id' u \<noteq> sid) (waitingUsers s)) = (Some p, pre @ post)"
    by blast
  show ?thesis
  proof (cases "id' p \<in> sockets s")
    case True
    with start_matching_some [OF f] matched [OF q True] show ?thesis by simp
  next
    case False
    with start_matching_some [OF f] stale [OF q False] show ?thesis by simp
  qed
qed

lemma filtered_ids: "sid \<notin> id' ` set (filter (\<lambda>u. id' u \<noteq> sid) q)"
  by auto

lemma start_matching_distinct:
  assumes "distinct (map id' (waitingUsers s))"
  shows "distinct (map id' (waitingUsers (fst (start_matching sid ud s))))"
proof -
  let ?q = "filter (\<lambda>u. id' u \<noteq> sid) (waitingUsers s)"
  have d: "distinct (map id' ?q)" using assms by (rule distinct_map_filter)
  have n: "sid \<notin> id' ` set ?q" by (rule filtered_ids)
  show ?thesis
  proof (cases rule: start_matching_cases [where sid = sid and s = s and ud = ud])
    case waiting
    then show ?thesis by simp
  next
    case (matched pre p post)
    with d show ?thesis by simp
  next
    case (stale pre p post)
    with d n show ?thesis by auto
  qed
qed

lemma step_distinct:
  assumes "distinct (map id' (waitingUsers s))"
  shows "distinct (map id' (waitingUsers (fst (step e s))))"
proof (cases e)
  case (StartMatching sid ud)
  with start_matching_distinct [OF assms] show ?thesis by simp
next
  case (UserHangup sid p)
  with assms show ?thesis by (simp add: user_hangup_def distinct_map_filter)
next
  case (Disconnect sid)
  with assms show ?thesis by (simp add: disconnect_def distinct_map_filter)
qed (use assms in \<open>simp_all add: signal_def\<close>)

lemma run_distinct:
  assumes "distinct (map id' (waitingUsers s))"
  shows "distinct (map id' (waitingUsers (fst (run evs s))))"
  using assms
proof (induction evs arbitrary: s)
  case Nil
  then show ?case by simp
next
  case (Cons e evs)
  from step_distinct [OF Cons.prems, of e]
  have "distinct (map id' (waitingUsers (fst (run evs (fst (step e s))))))"
    by (rule Cons.IH)
  then show ?case by (simp add: split_beta Let_def)
qed

lemma start_matching_own_entries:
  "length (filter (\<lambda>u. id' u = sid) (waitingUsers (fst (start_matching sid ud s)))) \<le> 1"
proof -
  let ?q = "filter (\<lambda>u. id' u \<noteq> sid) (waitingUsers s)"
  have z: "filter (\<lambda>u. id' u = sid) ?q = []" by (simp add: filter_empty_conv)
  show ?thesis
  proof (cases rule: start_matching_cases [where sid = sid and s = s and ud = ud])
    case waiting
    then show ?thesis by simp
  next
    case (matched pre p post)
    with z show ?thesis by (auto split: if_splits)
  next
    case (stale pre p post)
    with z show ?thesis by (auto split: if_splits)
  qed
qed

section \<open>Facts about string comparison, runs and the client\<close>

lemma js_string_lt_irrefl: "\<not> js_string_lt a a"
  by (induction a) auto

lemma js_string_lt_complement: "a \<noteq> b \<Longrightarrow> js_string_lt a b = (\<not> js_string_lt b a)"
proof (induction a b rule: js_string_lt.induct)
  case (4 x xs y ys)
  show ?case
  proof (cases "x = y")
    case True
    with 4 show ?thesis by simp
  next
    case False
    then have "(of_char x :: nat) \<noteq> of_char y" by simp
    then have "(of_char x :: nat) < of_char y \<or> (of_char y :: nat) < of_char x" by arith
    with False show ?thesis by auto
  qed
qed simp_all

lemma js_string_lt_trans: "js_string_lt a b \<Longrightarrow> js_string_lt b c \<Longrightarrow> js_string_lt a c"
proof (induction a b arbitrary: c rule: js_string_lt.induct)
  case (2 y ys)
  then show ?case by (cases c) auto
next
  case (4 x xs y ys)
  then show ?case by (cases c) (auto split: if_splits)
qed simp_all

lemma initial_distinct: "distinct (map id' (waitingUsers initial))"
  by (simp add: initial_def)

lemma match_found_partnerId:
  "partnerId (fst (match_found (MatchFound pid pn pc) c)) = Some pid
   \<and> peerConnection (fst (match_found (MatchFound pid pn pc) c)) = Some RTCPeerConnection"
  by (simp add: match_found_def createPeerConnection_def Let_def)

lemma start_matching_sockets: "sockets (fst (start_matching sid ud s)) = sockets s"
  by (cases rule: start_matching_cases [where sid = sid and s = s and ud = ud]) simp_all

section \<open>The matching policy and the join handler\<close>

text \<open>
  Claim C1. Whenever the queue the policy scans holds an entry whose country differs from
  the requester's, the policy returns the first such entry in queue order (every entry
  before it has the requester's country), never a same-country entry, and removes exactly
  that entry from the queue.
\<close>

theorem cross_region_first:
  assumes "\<exists>u \<in> set Q. country u \<noteq> r"
  shows "\<exists>pre p post. Q = pre @ p # post \<and> (\<forall>u \<in> set pre. country u = r) \<and> country p \<noteq> r
          \<and> find_and_remove_partner r Q = (Some p, pre @ post)"
proof -
  from split_first [OF assms] obtain pre p post
    where q: "Q = pre @ p # post" and p: "country p \<noteq> r"
      and pre: "\<forall>x \<in> set pre. country x = r"
    by auto
  from policy_at_first [OF pre p] q p pre show ?thesis by blast
qed

text \<open>An instance of the theorem for claim C1 on a concrete queue.\<close>

theorem cross_region_first_witness:
  "(\<exists>u \<in> set [ann, bob, cy]. country u \<noteq> ''US'') \<and>
   (\<exists>pre p post. [ann, bob, cy] = pre @ p # post \<and> (\<forall>u \<in> set pre. country u = ''US'')
      \<and> country p \<noteq> ''US''
      \<and> find_and_remove_partner ''US'' [ann, bob, cy] = (Some p, pre @ post))"
proof -
  have h: "\<exists>u \<in> set [ann, bob, cy]. country u \<noteq> ''US''" by (simp add: bob_def)
  from h cross_region_first [OF h] show ?thesis by blast
qed

text \<open>
  Claim C2. When every entry of the queue has the requester's country, the policy returns
  the first entry of the queue, if there is one; the policy finds nobody exactly when the
  queue is empty; and when the queue without the requester's own entries is empty, the
  handler leaves the requester as the only entry of the queue and emits
  \<^verbatim>\<open>waiting-in-queue\<close> to the requester and nothing else.
\<close>

theorem same_region_fallback:
  "((\<forall>u \<in> set Q. country u = r) \<longrightarrow>
      find_and_remove_partner r Q = (case Q of [] \<Rightarrow> (None, []) | p # rest \<Rightarrow> (Some p, rest)))
   \<and> (fst (find_and_remove_partner r Q) = None \<longleftrightarrow> Q = [])
   \<and> (filter (\<lambda>u. id' u \<noteq> sid) (waitingUsers s) = [] \<longrightarrow>
        start_matching sid ud s =
          (s\<lparr>waitingUsers := [\<lparr>id' = sid, username = ud_username ud, country = ud_country ud\<rparr>]\<rparr>,
           [(sid, WaitingInQueue)]))"
proof (intro conjI impI)
  assume "\<forall>u \<in> set Q. country u = r"
  then show "find_and_remove_partner r Q = (case Q of [] \<Rightarrow> (None, []) | p # rest \<Rightarrow> (Some p, rest))"
    by (rule policy_all_same)
next
  show "fst (find_and_remove_partner r Q) = None \<longleftrightarrow> Q = []"
  proof
    assume n: "fst (find_and_remove_partner r Q) = None"
    show "Q = []"
    proof (rule ccontr)
      assume "Q \<noteq> []"
      from policy_nonempty [OF this, of r] n show False by auto
    qed
  next
    assume "Q = []"
    then show "fst (find_and_remove_partner r Q) = None" by (simp add: policy_empty)
  qed
next
  assume "filter (\<lambda>u. id' u \<noteq> sid) (waitingUsers s) = []"
  then show "start_matching sid ud s =
          (s\<lparr>waitingUsers := [\<lparr>id' = sid, username = ud_username ud, country = ud_country ud\<rparr>]\<rparr>,
           [(sid, WaitingInQueue)])"
    by (rule start_matching_none)
qed

text \<open>An instance of the theorem for claim C2 on a concrete queue.\<close>

theorem same_region_fallback_witness:
  "country ann = ''US'' \<and> country cy = ''US''
   \<and> find_and_remove_partner ''US'' [ann, cy] = (Some ann, [cy])
   \<and> filter (\<lambda>u. id' u \<noteq> ''d'') (waitingUsers initial) = []
   \<and> start_matching ''d'' dee initial =
        (\<lparr>waitingUsers = [\<lparr>id' = ''d'', username = ''Dee'', country = ''US''\<rparr>], sockets = {}\<rparr>,
         [(''d'', WaitingInQueue)])"
  using same_region_fallback [of "[ann, cy]" "''US''" "''d''" initial dee]
  by (simp add: ann_def cy_def dee_def initial_def)

text \<open>
  Claim C7. When the policy selects a partner whose socket is no longer in the table of
  connected sockets, the handler commits no match (no \<^verbatim>\<open>match-found\<close> is emitted to
  anybody), appends the requester to the queue, and emits \<^verbatim>\<open>waiting-in-queue\<close> to the
  requester and nothing else.
\<close>

theorem stale_partner_requeues:
  assumes "find_and_remove_partner (ud_country ud)
             (filter (\<lambda>u. id' u \<noteq> sid) (waitingUsers s)) = (Some p, rest)"
    and "id' p \<notin> sockets s"
  shows "start_matching sid ud s =
           (s\<lparr>waitingUsers :=
                rest @ [\<lparr>id' = sid, username = ud_username ud, country = ud_country ud\<rparr>]\<rparr>,
            [(sid, WaitingInQueue)])
         \<and> (\<forall>t a b c. (t, MatchFound a b c) \<notin> set (snd (start_matching sid ud s)))"
  using assms start_matching_some [OF assms(1)] by simp

text \<open>An instance of the theorem for claim C7 on a concrete queue.\<close>

theorem stale_partner_requeues_witness:
  "find_and_remove_partner (ud_country dee)
     (filter (\<lambda>u. id' u \<noteq> ''d'') (waitingUsers \<lparr>waitingUsers = [bob, cy], sockets = {''c'', ''d''}\<rparr>))
     = (Some bob, [cy])
   \<and> id' bob \<notin> sockets \<lparr>waitingUsers = [bob, cy], sockets = {''c'', ''d''}\<rparr>
   \<and> start_matching ''d'' dee \<lparr>waitingUsers = [bob, cy], sockets = {''c'', ''d''}\<rparr> =
        (\<lparr>waitingUsers = [cy, \<lparr>id' = ''d'', username = ''Dee'', country = ''US''\<rparr>],
          sockets = {''c'', ''d''}\<rparr>,
         [(''d'', WaitingInQueue)])"
proof -
  let ?s = "\<lparr>waitingUsers = [bob, cy], sockets = {''c'', ''d''}\<rparr>"
  have f: "find_and_remove_partner (ud_country dee)
     (filter (\<lambda>u. id' u \<noteq> ''d'') (waitingUsers ?s)) = (Some bob, [cy])"
    by (simp add: find_and_remove_partner_def splice'_def index0_def bob_def cy_def dee_def)
  have l: "id' bob \<notin> sockets ?s" by (simp add: bob_def)
  from stale_partner_requeues [OF f l] f l show ?thesis by (simp add: dee_def)
qed

text \<open>
  Claim C10. The partner the policy returns on the queue without the requester's own
  entries never carries the requester's id, and no run of the handler tells a socket
  that its partner is the socket itself.
\<close>

theorem never_matched_with_itself:
  "(find_and_remove_partner c (filter (\<lambda>u. id' u \<noteq> sid) Q) = (Some p, rest) \<longrightarrow> id' p \<noteq> sid)
   \<and> ((t, MatchFound pid pn pc) \<in> set (snd (start_matching sid ud s)) \<longrightarrow> pid \<noteq> t)"
proof (intro conjI impI)
  assume "find_and_remove_partner c (filter (\<lambda>u. id' u \<noteq> sid) Q) = (Some p, rest)"
  from policy_Some_D [OF this] obtain pre post
    where "filter (\<lambda>u. id' u \<noteq> sid) Q = pre @ p # post" by blast
  then have "p \<in> set (filter (\<lambda>u. id' u \<noteq> sid) Q)" by simp
  then show "id' p \<noteq> sid" by simp
next
  assume m: "(t, MatchFound pid pn pc) \<in> set (snd (start_matching sid ud s))"
  show "pid \<noteq> t"
  proof (cases rule: start_matching_cases [where sid = sid and s = s and ud = ud])
    case waiting
    with m show ?thesis by simp
  next
    case (matched pre p post)
    then have "p \<in> set (filter (\<lambda>u. id' u \<noteq> sid) (waitingUsers s))" by simp
    then have "id' p \<noteq> sid" by simp
    with m matched(3) show ?thesis by auto
  next
    case (stale pre p post)
    with m show ?thesis by simp
  qed
qed

text \<open>An instance of the theorem for claim C10 on a concrete queue.\<close>

theorem never_matched_with_itself_witness:
  "find_and_remove_partner ''US'' (filter (\<lambda>u. id' u \<noteq> ''a'') [ann, bob]) = (Some bob, [])
   \<and> id' bob \<noteq> ''a''
   \<and> (''a'', MatchFound ''b'' ''Bob'' ''FR'')
        \<in> set (snd (start_matching ''a'' \<lparr>ud_username = ''Ann'', ud_country = ''US''\<rparr>
                    \<lparr>waitingUsers = [ann, bob], sockets = {''a'', ''b''}\<rparr>))
   \<and> ''b'' \<noteq> ''a''"
proof -
  have f: "find_and_remove_partner ''US'' (filter (\<lambda>u. id' u \<noteq> ''a'') [ann, bob]) = (Some bob, [])"
    by (simp add: find_and_remove_partner_def splice'_def index0_def ann_def bob_def)
  have m: "(''a'', MatchFound ''b'' ''Bob'' ''FR'')
        \<in> set (snd (start_matching ''a'' \<lparr>ud_username = ''Ann'', ud_country = ''US''\<rparr>
                    \<lparr>waitingUsers = [ann, bob], sockets = {''a'', ''b''}\<rparr>))"
    by (simp add: start_matching_def find_and_remove_partner_def splice'_def index0_def ann_def bob_def)
  from never_matched_with_itself [of "''US''" "''a''" "[ann, bob]" bob "[]" "''a''" "''b''" "''Bob''" "''FR''"
      "\<lparr>ud_username = ''Ann'', ud_country = ''US''\<rparr>" "\<lparr>waitingUsers = [ann, bob], sockets = {''a'', ''b''}\<rparr>"] f m
  show ?thesis by blast
qed

section \<open>The waiting queue across events\<close>

text \<open>
  Claim C8. After every sequence of connection, join, signal, hang-up and disconnect
  events, started from the empty queue or from any queue without duplicate ids, no two
  entries of the waiting queue carry the same socket id; and after a join, whatever the
  queue was before, at most one entry carries the requester's id, since the handler drops
  the old entries of that id before it pushes the new one.
\<close>

theorem one_entry_per_connection:
  "distinct (map id' (waitingUsers (fst (run evs initial))))
   \<and> (distinct (map id' (waitingUsers s)) \<longrightarrow> distinct (map id' (waitingUsers (fst (run evs s)))))
   \<and> length (filter (\<lambda>u. id' u = sid) (waitingUsers (fst (start_matching sid ud s)))) \<le> 1"
  using run_distinct [OF initial_distinct, of evs] run_distinct [of s evs]
    start_matching_own_entries [of sid ud s]
  by blast

text \<open>An instance of the theorem for claim C8 on concrete values.\<close>

theorem one_entry_per_connection_witness:
  "waitingUsers (fst (run [Connection ''a'', StartMatching ''a'' annData, StartMatching ''a'' bobData] initial))
     = [\<lparr>id' = ''a'', username = ''Bob'', country = ''FR''\<rparr>]
   \<and> distinct (map id' (waitingUsers (fst (run [Connection ''a'', StartMatching ''a'' annData,
        StartMatching ''a'' bobData] initial))))
   \<and> distinct (map id' (waitingUsers \<lparr>waitingUsers = [ann, cy], sockets = {''a'', ''c''}\<rparr>))
   \<and> distinct (map id' (waitingUsers (fst (run [StartMatching ''c'' bobData, Disconnect ''a'']
        \<lparr>waitingUsers = [ann, cy], sockets = {''a'', ''c''}\<rparr>))))
   \<and> length (filter (\<lambda>u. id' u = ''a'')
        (waitingUsers (fst (start_matching ''a'' annData \<lparr>waitingUsers = [ann, ann], sockets = {''a''}\<rparr>)))) \<le> 1"
proof -
  have r: "waitingUsers (fst (run [Connection ''a'', StartMatching ''a'' annData, StartMatching ''a'' bobData] initial))
     = [\<lparr>id' = ''a'', username = ''Bob'', country = ''FR''\<rparr>]"
    by (simp add: initial_def start_matching_def find_and_remove_partner_def annData_def bobData_def)
  have d: "distinct (map id' (waitingUsers \<lparr>waitingUsers = [ann, cy], sockets = {''a'', ''c''}\<rparr>))"
    by (simp add: ann_def cy_def)
  from one_entry_per_connection [of "[Connection ''a'', StartMatching ''a'' annData, StartMatching ''a'' bobData]"
      "\<lparr>waitingUsers = [ann, ann], sockets = {''a''}\<rparr>" "''a''" annData]
    one_entry_per_connection [of "[StartMatching ''c'' bobData, Disconnect ''a'']"
      "\<lparr>waitingUsers = [ann, cy], sockets = {''a'', ''c''}\<rparr>" "''a''" annData] r d
  show ?thesis by blast
qed

text \<open>
  Claim C9. Removing a socket's entries from the queue, the hang-up handler and the
  disconnect handler are idempotent on the server state: run twice in a row for the same
  socket, each leaves the state it leaves when run once.
\<close>

theorem removal_idempotent:
  "filter (\<lambda>u. id' u \<noteq> sid) (filter (\<lambda>u. id' u \<noteq> sid) (waitingUsers s))
     = filter (\<lambda>u. id' u \<noteq> sid) (waitingUsers s)
   \<and> fst (user_hangup sid p (fst (user_hangup sid p s))) = fst (user_hangup sid p s)
   \<and> fst (disconnect sid (fst (disconnect sid s))) = fst (disconnect sid s)
   \<and> fst (run [UserHangup sid p, UserHangup sid p] s) = fst (run [UserHangup sid p] s)
   \<and> fst (run [Disconnect sid, Disconnect sid] s) = fst (run [Disconnect sid] s)"
  by (simp add: user_hangup_def disconnect_def)

text \<open>An instance of the theorem for claim C9 on concrete values.\<close>

theorem removal_idempotent_witness:
  "fst (run [UserHangup ''a'' (Some ''b''), UserHangup ''a'' (Some ''b'')]
          \<lparr>waitingUsers = [ann, cy], sockets = {''a'', ''b'', ''c''}\<rparr>)
     = \<lparr>waitingUsers = [cy], sockets = {''a'', ''b'', ''c''}\<rparr>
   \<and> fst (run [Disconnect ''a'', Disconnect ''a'']
          \<lparr>waitingUsers = [ann, cy], sockets = {''a'', ''b'', ''c''}\<rparr>)
     = \<lparr>waitingUsers = [cy], sockets = {''b'', ''c''}\<rparr>"
  using removal_idempotent [of "''a''" "\<lparr>waitingUsers = [ann, cy], sockets = {''a'', ''b'', ''c''}\<rparr>" "Some ''b''"]
  by (simp add: user_hangup_def disconnect_def ann_def cy_def)

section \<open>The client: requeue and negotiation role\<close>

text \<open>
  Claim C4. On \<^verbatim>\<open>partner-dropped\<close> the client, in whatever state it is, ends with no
  partner id and no peer connection, keeps its display attributes, emits no
  \<^verbatim>\<open>user-hangup\<close>, and, when both display attributes are non-empty, emits exactly one
  event: \<^verbatim>\<open>start-matching\<close> with those attributes.
\<close>

theorem partner_dropped_requeues:
  "partnerId (fst (partner_dropped c)) = None
   \<and> peerConnection (fst (partner_dropped c)) = None
   \<and> localUserData (fst (partner_dropped c)) = localUserData c
   \<and> (\<forall>p. EmitUserHangup p \<notin> set (snd (partner_dropped c)))
   \<and> (ud_username (localUserData c) \<noteq> [] \<and> ud_country (localUserData c) \<noteq> [] \<longrightarrow>
        snd (partner_dropped c) = [EmitStartMatching (localUserData c)])"
  by (simp add: partner_dropped_def requeueForMatch_def handleHangUp_def
      clearConnectionState_def Let_def)

text \<open>An instance of the theorem for claim C4 on concrete values.\<close>

theorem partner_dropped_requeues_witness:
  "ud_username (localUserData annClient) \<noteq> [] \<and> ud_country (localUserData annClient) \<noteq> []
   \<and> partner_dropped annClient =
       (\<lparr>socket_id = ''a'', localStream = True, peerConnection = None, partnerId = None,
          localUserData = annData\<rparr>,
        [EmitStartMatching \<lparr>ud_username = ''Ann'', ud_country = ''US''\<rparr>])"
proof -
  have h: "ud_username (localUserData annClient) \<noteq> [] \<and> ud_country (localUserData annClient) \<noteq> []"
    by (simp add: annClient_def annData_def)
  have s: "fst (partner_dropped annClient) = \<lparr>socket_id = ''a'', localStream = True, peerConnection = None, partnerId = None,
          localUserData = annData\<rparr>"
    by (simp add: partner_dropped_def requeueForMatch_def clearConnectionState_def annClient_def annData_def)
  from partner_dropped_requeues [of annClient] h
  have "snd (partner_dropped annClient) = [EmitStartMatching (localUserData annClient)]" by blast
  with h s show ?thesis by (simp add: prod_eq_iff annClient_def annData_def)
qed

text \<open>
  Claim C5. For two distinct socket ids the comparison each side computes is the negation
  of the one the other side computes, so of two clients that handle \<^verbatim>\<open>match-found\<close>
  for each other exactly one calls \<^verbatim>\<open>createOffer()\<close>; the comparison is irreflexive and
  transitive, a strict total order of the ids.
\<close>

theorem exactly_one_initiator:
  assumes "a \<noteq> b" and "socket_id ca = a" and "socket_id cb = b"
  shows "isInitiator a b = (\<not> isInitiator b a)
     \<and> (CreateOffer \<in> set (snd (match_found (MatchFound b nb rb) ca)))
         = (CreateOffer \<notin> set (snd (match_found (MatchFound a na ra) cb)))
     \<and> snd (match_found (MatchFound b nb rb) ca) = (if isInitiator a b then [CreateOffer] else [])
     \<and> \<not> isInitiator a a
     \<and> (\<forall>c. isInitiator a b \<and> isInitiator b c \<longrightarrow> isInitiator a c)"
  using assms js_string_lt_complement [of a b] js_string_lt_irrefl [of a] js_string_lt_trans [of a b]
  by (auto simp: isInitiator_def match_found_def createPeerConnection_def)

text \<open>An instance of the theorem for claim C5 on concrete values.\<close>

theorem exactly_one_initiator_witness:
  "''a'' \<noteq> ''b'' \<and> socket_id annClient = ''a'' \<and> socket_id bobClient = ''b''
   \<and> isInitiator ''a'' ''b'' \<and> \<not> isInitiator ''b'' ''a''
   \<and> snd (match_found (MatchFound ''b'' ''Bob'' ''FR'') annClient) = [CreateOffer]
   \<and> snd (match_found (MatchFound ''a'' ''Ann'' ''US'') bobClient) = []"
proof -
  have h: "''a'' \<noteq> ''b''" "socket_id annClient = ''a''" "socket_id bobClient = ''b''"
    by (simp_all add: annClient_def bobClient_def)
  have i: "isInitiator ''a'' ''b''" by (simp add: isInitiator_def)
  from exactly_one_initiator [OF h, of "''Bob''" "''FR''" "''Ann''" "''US''"] h i
  show ?thesis by (simp add: match_found_def createPeerConnection_def annClient_def bobClient_def)
qed

section \<open>Sessions and the relay\<close>

text \<open>
  Claim C3 as stated asks for a session record for both participants after a match. Two
  users connect and join, and the second join matches them; the whole state the server is
  left with is an empty queue and the table of connected sockets, the very state of a
  server on which the two sockets connected and nobody ever joined, so it holds no record
  of the session.
\<close>

theorem no_session_record_counterexample:
  "snd (run [Connection ''a'', StartMatching ''a'' annData, Connection ''b'', StartMatching ''b'' bobData]
          initial)
     = [(''a'', WaitingInQueue), (''b'', MatchFound ''a'' ''Ann'' ''US''),
        (''a'', MatchFound ''b'' ''Bob'' ''FR'')]
   \<and> fst (run [Connection ''a'', StartMatching ''a'' annData, Connection ''b'', StartMatching ''b'' bobData]
          initial)
     = \<lparr>waitingUsers = [], sockets = {''a'', ''b''}\<rparr>
   \<and> fst (run [Connection ''a'', Connection ''b''] initial)
     = \<lparr>waitingUsers = [], sockets = {''a'', ''b''}\<rparr>"
  by (simp add: initial_def start_matching_def find_and_remove_partner_def splice'_def index0_def
      annData_def bobData_def insert_commute)

text \<open>
  Claim C3, as amended. In every state the server reaches from its initial state, a join
  that emits \<^verbatim>\<open>match-found\<close> to the requester emits exactly two events, one to each of
  the two matched sockets and naming the other; afterwards neither id is in the waiting
  queue, nothing but the queue has changed on the server, and each client that handles its
  \<^verbatim>\<open>match-found\<close> holds the other's id as its partner id.
\<close>

theorem match_leaves_queue_and_informs_both:
  assumes "s = fst (run evs initial)"
    and "(sid, MatchFound pid pn pc) \<in> set (snd (start_matching sid ud s))"
  shows "sid \<notin> id' ` set (waitingUsers (fst (start_matching sid ud s)))
     \<and> pid \<notin> id' ` set (waitingUsers (fst (start_matching sid ud s)))
     \<and> snd (start_matching sid ud s)
         = [(sid, MatchFound pid pn pc), (pid, MatchFound sid (ud_username ud) (ud_country ud))]
     \<and> sockets (fst (start_matching sid ud s)) = sockets s
     \<and> partnerId (fst (match_found (MatchFound pid pn pc) ca)) = Some pid
     \<and> partnerId (fst (match_found (MatchFound sid (ud_username ud) (ud_country ud)) cb)) = Some sid"
proof -
  let ?q = "filter (\<lambda>u. id' u \<noteq> sid) (waitingUsers s)"
  have "distinct (map id' (waitingUsers s))"
    unfolding assms(1) using initial_distinct by (rule run_distinct)
  then have d: "distinct (map id' ?q)" by (rule distinct_map_filter)
  have n: "sid \<notin> id' ` set ?q" by (rule filtered_ids)
  have queue_and_out:
    "sid \<notin> id' ` set (waitingUsers (fst (start_matching sid ud s)))
     \<and> pid \<notin> id' ` set (waitingUsers (fst (start_matching sid ud s)))
     \<and> snd (start_matching sid ud s)
         = [(sid, MatchFound pid pn pc), (pid, MatchFound sid (ud_username ud) (ud_country ud))]"
  proof (cases rule: start_matching_cases [where sid = sid and s = s and ud = ud])
    case waiting
    with assms(2) show ?thesis by simp
  next
    case (matched pre p post)
    from matched(1) n have ne: "id' p \<noteq> sid" by auto
    with assms(2) matched(3) have p: "pid = id' p" "pn = username p" "pc = country p" by auto
    from d matched(1) have "id' p \<notin> id' ` set (pre @ post)" by auto
    moreover from n matched(1) have "sid \<notin> id' ` set (pre @ post)" by auto
    ultimately show ?thesis using matched(3) p by simp
  next
    case (stale pre p post)
    with assms(2) show ?thesis by simp
  qed
  with start_matching_sockets [of sid ud s] match_found_partnerId [of pid pn pc ca]
    match_found_partnerId [of sid "ud_username ud" "ud_country ud" cb]
  show ?thesis by simp
qed

text \<open>An instance of the theorem for claim C3 on concrete values.\<close>

theorem match_leaves_queue_and_informs_both_witness:
  "\<lparr>waitingUsers = [ann], sockets = {''a'', ''b''}\<rparr>
      = fst (run [Connection ''a'', StartMatching ''a'' annData, Connection ''b''] initial)
   \<and> (''b'', MatchFound ''a'' ''Ann'' ''US'')
        \<in> set (snd (start_matching ''b'' bobData \<lparr>waitingUsers = [ann], sockets = {''a'', ''b''}\<rparr>))
   \<and> ''b'' \<notin> id' ` set (waitingUsers (fst (start_matching ''b'' bobData \<lparr>waitingUsers = [ann], sockets = {''a'', ''b''}\<rparr>)))
   \<and> ''a'' \<notin> id' ` set (waitingUsers (fst (start_matching ''b'' bobData \<lparr>waitingUsers = [ann], sockets = {''a'', ''b''}\<rparr>)))
   \<and> snd (start_matching ''b'' bobData \<lparr>waitingUsers = [ann], sockets = {''a'', ''b''}\<rparr>)
        = [(''b'', MatchFound ''a'' ''Ann'' ''US''), (''a'', MatchFound ''b'' ''Bob'' ''FR'')]
   \<and> partnerId (fst (match_found (MatchFound ''a'' ''Ann'' ''US'') bobClient)) = Some ''a''
   \<and> partnerId (fst (match_found (MatchFound ''b'' ''Bob'' ''FR'') annClient)) = Some ''b''"
proof -
  let ?s = "\<lparr>waitingUsers = [ann], sockets = {''a'', ''b''}\<rparr>"
  have r: "?s = fst (run [Connection ''a'', StartMatching ''a'' annData, Connection ''b''] initial)"
    by (simp add: initial_def start_matching_def find_and_remove_partner_def annData_def ann_def
        insert_commute)
  have m: "(''b'', MatchFound ''a'' ''Ann'' ''US'') \<in> set (snd (start_matching ''b'' bobData ?s))"
    by (simp add: start_matching_def find_and_remove_partner_def splice'_def index0_def
        ann_def bobData_def)
  from match_leaves_queue_and_informs_both [OF r m, of bobClient annClient] r m
  show ?thesis by (simp add: bobData_def)
qed

text \<open>
  Claim C6 as stated lets a signal through only when a session exists for the sender. Two
  sockets connect and neither ever joins, so no match was ever announced; the first one's
  signal to the second is relayed all the same.
\<close>

theorem signal_without_session_counterexample:
  "run [Connection ''a'', Connection ''b'', SignalEv ''a'' offer] initial
     = (\<lparr>waitingUsers = [], sockets = {''a'', ''b''}\<rparr>, [(''b'', Signal ''a'' ''sdp-offer'' ''v=0'')])"
  by (simp add: initial_def signal_def io_to_emit_def offer_def insert_commute)

text \<open>
  Claim C6, as amended. The \<^verbatim>\<open>signal\<close> handler leaves the server state unchanged and
  relays the message, tagged with the sender's id, to the target exactly when the target is
  a connected socket; the waiting queue plays no part in it.
\<close>

theorem signal_relayed_iff_target_connected:
  "fst (signal sid d s) = s
   \<and> (target d \<in> sockets s \<longrightarrow>
        snd (signal sid d s) = [(target d, Signal sid (type' d) (payload d))])
   \<and> (target d \<notin> sockets s \<longrightarrow> snd (signal sid d s) = [])
   \<and> snd (signal sid d (s\<lparr>waitingUsers := q\<rparr>)) = snd (signal sid d s)"
  by (simp add: signal_def io_to_emit_def)

text \<open>An instance of the theorem for claim C6 on concrete values.\<close>

theorem signal_relayed_iff_target_connected_witness:
  "target offer \<in> sockets \<lparr>waitingUsers = [], sockets = {''a'', ''b''}\<rparr>
   \<and> snd (signal ''a'' offer \<lparr>waitingUsers = [], sockets = {''a'', ''b''}\<rparr>)
       = [(''b'', Signal ''a'' ''sdp-offer'' ''v=0'')]
   \<and> target offer \<notin> sockets \<lparr>waitingUsers = [], sockets = {''a''}\<rparr>
   \<and> snd (signal ''a'' offer \<lparr>waitingUsers = [], sockets = {''a''}\<rparr>) = []"
  using signal_relayed_iff_target_connected [of "''a''" offer "\<lparr>waitingUsers = [], sockets = {''a'', ''b''}\<rparr>"]
    signal_relayed_iff_target_connected [of "''a''" offer "\<lparr>waitingUsers = [], sockets = {''a''}\<rparr>"]
  by (simp add: offer_def)

end
